theory Spec2Isabelle
  imports Main "HOL-Library.Sublist"
begin

section \<open>Values read from the JSON files\<close>

text \<open>
  \<open>alerts.json\<close> and \<open>mitre_mapping.json\<close> are read by \<open>json.load\<close>, so every value
  the helper functions see is \<open>None\<close>, a \<open>bool\<close>, an \<open>int\<close>, a \<open>float\<close>, a \<open>str\<close>,
  a \<open>list\<close> or a \<open>dict\<close> with \<open>str\<close> keys. A \<open>dict\<close> is kept as the list of its items
  in iteration order (which is the order \<open>mitre_map.items()\<close> visits); a key is looked
  up with \<open>map_of\<close>.

  A \<open>str\<close> is a \<open>string\<close> whose characters are read as the code points below 256;
  \<open>lower\<close> and \<open>strip\<close> are Python's on that range. Text with code points from 256 on
  is outside this model; the section on wider text below takes a \<open>str\<close> as the list of
  its code points, for the one property that differs there.
\<close>

datatype pyfloat = Finite int int | PosInf | NegInf | NaN

datatype json =
    JNull
  | JBool bool
  | JInt int
  | JFloat pyfloat
  | JStr string
  | JArr "json list"
  | JObj "(string \<times> json) list"

datatype pyerr = AttributeError | TypeError

text \<open>\<open>Finite m e\<close> is the float \<open>m * 2 ** e\<close>; only its being zero is ever looked at.\<close>

fun float_truthy :: "pyfloat \<Rightarrow> bool" where
  "float_truthy (Finite m e) = (m \<noteq> 0)"
| "float_truthy PosInf = True"
| "float_truthy NegInf = True"
| "float_truthy NaN = True"

text \<open>Python's truth value, which \<open>or\<close> and \<open>not\<close> test.\<close>

fun truthy :: "json \<Rightarrow> bool" where
  "truthy JNull = False"
| "truthy (JBool b) = b"
| "truthy (JInt i) = (i \<noteq> 0)"
| "truthy (JFloat f) = float_truthy f"
| "truthy (JStr s) = (s \<noteq> [])"
| "truthy (JArr xs) = (xs \<noteq> [])"
| "truthy (JObj kvs) = (kvs \<noteq> [])"

text \<open>
  \<open>a or b\<close>: the value of \<open>a\<close> when it is truthy, else \<open>b\<close>; when \<open>a\<close> raises, \<open>b\<close> is
  never reached.
\<close>

definition py_or :: "pyerr + json \<Rightarrow> pyerr + json \<Rightarrow> pyerr + json" where
  "py_or a b = (case a of Inl e \<Rightarrow> Inl e | Inr v \<Rightarrow> if truthy v then Inr v else b)"

text \<open>\<open>x.get(k)\<close> and \<open>x.get(k, d)\<close>: only a \<open>dict\<close> has the attribute.\<close>

fun dict_get_default :: "json \<Rightarrow> string \<Rightarrow> json \<Rightarrow> pyerr + json" where
  "dict_get_default (JObj kvs) k d = Inr (case map_of kvs k of None \<Rightarrow> d | Some v \<Rightarrow> v)"
| "dict_get_default _ k d = Inl AttributeError"

definition dict_get :: "json \<Rightarrow> string \<Rightarrow> pyerr + json" where
  "dict_get x k = dict_get_default x k JNull"

text \<open>\<open>x.items()\<close>.\<close>

fun dict_items :: "json \<Rightarrow> pyerr + (string \<times> json) list" where
  "dict_items (JObj kvs) = Inr kvs"
| "dict_items _ = Inl AttributeError"

text \<open>\<open>for a in x\<close>: a list gives its elements, a dict its keys, a str its characters.\<close>

fun py_iter :: "json \<Rightarrow> pyerr + json list" where
  "py_iter (JArr xs) = Inr xs"
| "py_iter (JObj kvs) = Inr (map (\<lambda>kv. JStr (fst kv)) kvs)"
| "py_iter (JStr s) = Inr (map (\<lambda>c. JStr [c]) s)"
| "py_iter _ = Inl TypeError"

subsection \<open>Strings\<close>

definition is_upper :: "char \<Rightarrow> bool" where
  "is_upper c =
     (let n = (of_char c :: nat)
      in (65 \<le> n \<and> n \<le> 90) \<or> (192 \<le> n \<and> n \<le> 222 \<and> n \<noteq> 215))"

definition lower_char :: "char \<Rightarrow> char" where
  "lower_char c = (if is_upper c then char_of ((of_char c :: nat) + 32) else c)"

definition lower :: "string \<Rightarrow> string" where
  "lower s = map lower_char s"

definition is_space :: "char \<Rightarrow> bool" where
  "is_space c =
     (let n = (of_char c :: nat)
      in (9 \<le> n \<and> n \<le> 13) \<or> (28 \<le> n \<and> n \<le> 32) \<or> n = 133 \<or> n = 160)"

definition strip :: "string \<Rightarrow> string" where
  "strip s = rev (dropWhile is_space (rev (dropWhile is_space s)))"

text \<open>\<open>x.lower()\<close> on a value: only a \<open>str\<close> has the attribute.\<close>

fun str_lower :: "json \<Rightarrow> pyerr + string" where
  "str_lower (JStr s) = Inr (lower s)"
| "str_lower _ = Inl AttributeError"

text \<open>\<open>k in text\<close> on two \<open>str\<close>: \<open>k\<close> occurs in \<open>text\<close> as a contiguous run.\<close>

fun py_in :: "'a list \<Rightarrow> 'a list \<Rightarrow> bool" where
  "py_in k [] = (k = [])"
| "py_in k (c # cs) = (prefix k (c # cs) \<or> py_in k cs)"

section \<open>The helper functions of \<open>app.py\<close>\<close>

text \<open>
  \<open>parser.parse\<close> belongs to \<open>dateutil\<close>, not to this program: it is the parameter
  \<open>dparse\<close>, which returns a datetime (\<open>Inr\<close>) or raises an \<open>Exception\<close> (\<open>Inl\<close>).
  \<open>dparse\<close> is the parser as it behaves during one run: \<open>dateutil\<close> completes a text
  that lacks a date from \<open>datetime.now()\<close>, so two runs have each their own \<open>dparse\<close>.
\<close>

definition parse_time :: "(json \<Rightarrow> 'e + 'dt) \<Rightarrow> json \<Rightarrow> pyerr + 'dt option" where
  "parse_time dparse alert =
     (case py_or (dict_get alert ''timestamp'')
             (py_or (dict_get alert ''time'') (dict_get alert ''event_time'')) of
        Inl e \<Rightarrow> Inl e
      | Inr ts \<Rightarrow>
          if \<not> truthy ts then Inr None
          else (case dparse ts of Inl ex \<Rightarrow> Inr None | Inr d \<Rightarrow> Inr (Some d)))"

definition pick_source :: "json \<Rightarrow> pyerr + json" where
  "pick_source alert =
     py_or (dict_get alert ''source'')
       (py_or (dict_get alert ''vendor'')
         (py_or (dict_get alert ''product'') (Inr (JStr ''Unknown''))))"

definition pick_alert_type :: "json \<Rightarrow> pyerr + json" where
  "pick_alert_type alert =
     py_or (dict_get alert ''type'')
       (py_or (dict_get alert ''alert_type'')
         (py_or (dict_get alert ''signature'') (Inr (JStr ''Unknown''))))"

text \<open>The two fallback tests, \<open>any(k in text for k in [...])\<close>.\<close>

definition any_in :: "string list \<Rightarrow> string \<Rightarrow> bool" where
  "any_in ks text = list_ex (\<lambda>k. py_in k text) ks"

definition severity_bucket :: "json \<Rightarrow> json \<Rightarrow> pyerr + string" where
  "severity_bucket alert alert_type_text =
     (case py_or (dict_get alert ''severity'') (Inr (JStr [])) of
        Inl e \<Rightarrow> Inl e
      | Inr sv \<Rightarrow>
     (case str_lower sv of
        Inl e \<Rightarrow> Inl e
      | Inr sl \<Rightarrow>
     (case py_or (Inr alert_type_text) (Inr (JStr [])) of
        Inl e \<Rightarrow> Inl e
      | Inr tv \<Rightarrow>
     (case str_lower tv of
        Inl e \<Rightarrow> Inl e
      | Inr text \<Rightarrow>
          (let sev = strip sl in
           if sev \<in> set [''critical'', ''high''] then Inr ''High''
           else if sev = ''medium'' then Inr ''Medium''
           else if sev = ''low'' then Inr ''Low''
           else if any_in [''sql injection'', ''malware''] text then Inr ''High''
           else if any_in [''brute force'', ''failed login'', ''port scan''] text
             then Inr ''Medium''
           else Inr ''Low'')))))"

text \<open>The body of the \<open>for\<close> loop of \<open>mitre_enrich\<close>, over the items still to visit.\<close>

fun mitre_loop :: "'a list \<Rightarrow> ('a list \<times> json) list \<Rightarrow> pyerr + json \<times> json" where
  "mitre_loop text [] = Inr (JStr ''Unknown'', JStr ''Unknown'')"
| "mitre_loop text ((keyword, mapping) # rest) =
     (if py_in keyword text then
        (case dict_get_default mapping ''tactic'' (JStr ''Unknown'') of
           Inl e \<Rightarrow> Inl e
         | Inr tactic \<Rightarrow>
        (case dict_get_default mapping ''technique'' (JStr ''Unknown'') of
           Inl e \<Rightarrow> Inl e
         | Inr technique \<Rightarrow> Inr (tactic, technique)))
      else mitre_loop text rest)"

text \<open>\<open>mitre_map\<close> is a global of the module; here it is the first argument.\<close>

definition mitre_enrich :: "json \<Rightarrow> json \<Rightarrow> pyerr + json \<times> json" where
  "mitre_enrich mitre_map alert_type_text =
     (case py_or (Inr alert_type_text) (Inr (JStr [])) of
        Inl e \<Rightarrow> Inl e
      | Inr tv \<Rightarrow>
     (case str_lower tv of
        Inl e \<Rightarrow> Inl e
      | Inr text \<Rightarrow>
     (case dict_items mitre_map of
        Inl e \<Rightarrow> Inl e
      | Inr items \<Rightarrow> mitre_loop text items)))"

section \<open>Normalize and enrich\<close>

record 'dt row =
  r_timestamp :: "'dt option"
  r_source :: json
  r_alert_type :: json
  r_severity_bucket :: string
  r_mitre_tactic :: json
  r_mitre_technique :: json

text \<open>One pass of the loop body: the row that is appended for alert \<open>a\<close>.\<close>

definition normalize_one :: "(json \<Rightarrow> 'e + 'dt) \<Rightarrow> json \<Rightarrow> json \<Rightarrow> pyerr + 'dt row" where
  "normalize_one dparse mitre_map a =
     (case pick_alert_type a of
        Inl e \<Rightarrow> Inl e
      | Inr atype \<Rightarrow>
     (case parse_time dparse a of
        Inl e \<Rightarrow> Inl e
      | Inr ts \<Rightarrow>
     (case pick_source a of
        Inl e \<Rightarrow> Inl e
      | Inr src \<Rightarrow>
     (case severity_bucket a atype of
        Inl e \<Rightarrow> Inl e
      | Inr bucket \<Rightarrow>
     (case mitre_enrich mitre_map atype of
        Inl e \<Rightarrow> Inl e
      | Inr (tactic, technique) \<Rightarrow>
          Inr \<lparr> r_timestamp = ts, r_source = src, r_alert_type = atype,
                r_severity_bucket = bucket, r_mitre_tactic = tactic,
                r_mitre_technique = technique \<rparr>)))))"

text \<open>The \<open>for\<close> loop: \<open>rows\<close> is \<open>normalized_rows\<close> so far, each pass appends to it.\<close>

fun normalize_loop ::
  "(json \<Rightarrow> 'e + 'dt) \<Rightarrow> json \<Rightarrow> json list \<Rightarrow> 'dt row list \<Rightarrow> pyerr + 'dt row list" where
  "normalize_loop dparse mitre_map [] rows = Inr rows"
| "normalize_loop dparse mitre_map (a # rest) rows =
     (case normalize_one dparse mitre_map a of
        Inl e \<Rightarrow> Inl e
      | Inr r \<Rightarrow> normalize_loop dparse mitre_map rest (rows @ [r]))"

text \<open>
  The module's globals, and lines 176 to 193 as a step on them: \<open>normalized_rows\<close> is
  set to the empty list, then the loop runs over \<open>raw_alerts\<close>.
\<close>

record 'dt globals =
  raw_alerts :: json
  mitre_map :: json
  normalized_rows :: "'dt row list"

definition normalize_all :: "(json \<Rightarrow> 'e + 'dt) \<Rightarrow> 'dt globals \<Rightarrow> pyerr + 'dt globals" where
  "normalize_all dparse g =
     (case py_iter (raw_alerts g) of
        Inl e \<Rightarrow> Inl e
      | Inr alerts \<Rightarrow>
     (case normalize_loop dparse (mitre_map g) alerts [] of
        Inl e \<Rightarrow> Inl e
      | Inr rows \<Rightarrow> Inr (g\<lparr>normalized_rows := rows\<rparr>)))"

section \<open>Notions the properties are stated with\<close>

text \<open>The value stored under a key of a \<open>dict\<close>, \<open>None\<close> when the key is absent.\<close>

definition field :: "(string \<times> json) list \<Rightarrow> string \<Rightarrow> json" where
  "field kvs k = (case map_of kvs k of None \<Rightarrow> JNull | Some v \<Rightarrow> v)"

text \<open>
  A value that \<open>(v or "").lower()\<close> accepts: a \<open>str\<close>, or anything that is not truthy
  (\<open>None\<close>, \<open>False\<close>, \<open>0\<close>, \<open>0.0\<close>, an empty list or dict), which \<open>or\<close> replaces by \<open>""\<close>.
  \<open>text_of\<close> is the \<open>str\<close> that is then lowercased.
\<close>

fun is_str :: "json \<Rightarrow> bool" where
  "is_str (JStr s) = True"
| "is_str _ = False"

definition str_or_falsy :: "json \<Rightarrow> bool" where
  "str_or_falsy v = (is_str v \<or> \<not> truthy v)"

fun text_of :: "json \<Rightarrow> string" where
  "text_of (JStr s) = s"
| "text_of _ = []"

fun is_obj :: "json \<Rightarrow> bool" where
  "is_obj (JObj kvs) = True"
| "is_obj _ = False"

text \<open>
  The field resolver in the spec's words: the candidate names are tried in order and the
  first value that is present and non-empty wins. Non-empty is read as Python reads it in
  \<open>a or b\<close>: \<open>None\<close>, \<open>False\<close>, zero, \<open>""\<close>, \<open>[]\<close> and \<open>{}\<close> count as empty.
\<close>

fun first_nonempty :: "string list \<Rightarrow> (string \<times> json) list \<Rightarrow> json option" where
  "first_nonempty [] kvs = None"
| "first_nonempty (n # ns) kvs =
     (case map_of kvs n of
        None \<Rightarrow> first_nonempty ns kvs
      | Some v \<Rightarrow> if truthy v then Some v else first_nonempty ns kvs)"

text \<open>
  The severity algorithm in the spec's words (section 4.2), on the raw severity text
  (\<open>""\<close> when the field is absent or empty) and the alert type text.
\<close>

definition classify_severity :: "string \<Rightarrow> string \<Rightarrow> string" where
  "classify_severity raw_severity alert_type_text =
     (let s = strip (lower raw_severity); t = lower alert_type_text in
      if s = ''critical'' \<or> s = ''high'' then ''High''
      else if s = ''medium'' then ''Medium''
      else if s = ''low'' then ''Low''
      else if py_in ''sql injection'' t \<or> py_in ''malware'' t then ''High''
      else if py_in ''brute force'' t \<or> py_in ''failed login'' t \<or> py_in ''port scan'' t
        then ''Medium''
      else ''Low'')"

text \<open>
  The keyword fallback alone, in the spec's words (step 2 of section 4.2), on the
  lowercased alert type text.
\<close>

definition keyword_fallback :: "string \<Rightarrow> string" where
  "keyword_fallback t =
     (if py_in ''sql injection'' t \<or> py_in ''malware'' t then ''High''
      else if py_in ''brute force'' t \<or> py_in ''failed login'' t \<or> py_in ''port scan'' t
        then ''Medium''
      else ''Low'')"

text \<open>The first table entry whose keyword occurs in the text, in the table's order.\<close>

definition first_hit :: "string \<Rightarrow> (string \<times> json) list \<Rightarrow> (string \<times> json) option" where
  "first_hit text items = find (\<lambda>kv. py_in (fst kv) text) items"

text \<open>
  Inputs on which the loop does not raise: an alert that is a \<open>dict\<close> whose severity
  is a \<open>str\<close> or not truthy and whose picked alert type is a \<open>str\<close>; a mapping table
  that is a \<open>dict\<close> whose entries are \<open>dict\<close>s with \<open>str\<close> (or no) tactic and technique.
\<close>

fun alert_ok :: "json \<Rightarrow> bool" where
  "alert_ok (JObj kvs) =
     (str_or_falsy (field kvs ''severity'') \<and>
      (case pick_alert_type (JObj kvs) of Inl e \<Rightarrow> False | Inr v \<Rightarrow> is_str v))"
| "alert_ok _ = False"

fun entry_ok :: "json \<Rightarrow> bool" where
  "entry_ok (JObj fs) =
     ((case map_of fs ''tactic'' of None \<Rightarrow> True | Some v \<Rightarrow> is_str v) \<and>
      (case map_of fs ''technique'' of None \<Rightarrow> True | Some v \<Rightarrow> is_str v))"
| "entry_ok _ = False"

fun table_ok :: "json \<Rightarrow> bool" where
  "table_ok (JObj items) = list_all (\<lambda>kv. entry_ok (snd kv)) items"
| "table_ok _ = False"

text \<open>
  A stand-in for \<open>dateutil\<close>'s parser in the examples: it raises \<open>TypeError\<close> on
  anything but a \<open>str\<close>, as \<open>parser.parse\<close> does, and accepts every \<open>str\<close>, returned
  as it is. The theorems hold for every parser; only the examples use this one.
\<close>

fun sample_parse :: "json \<Rightarrow> pyerr + string" where
  "sample_parse (JStr s) = Inr s"
| "sample_parse _ = Inl TypeError"

text \<open>A small run for the examples: two alerts, a table of two entries, and its rows.\<close>

definition sample_alerts :: "json list" where
  "sample_alerts =
     [JObj [(''timestamp'', JStr ''2024-01-02T03:04:05Z''), (''vendor'', JStr ''Acme''),
            (''type'', JStr ''SQL Injection detected'')],
      JObj [(''severity'', JStr ''low''), (''signature'', JStr ''Port Scan'')]]"

definition sample_table :: json where
  "sample_table =
     JObj [(''sql injection'',
              JObj [(''tactic'', JStr ''Initial Access''), (''technique'', JStr ''T1190'')]),
           (''scan'', JObj [(''tactic'', JStr ''Discovery'')])]"

definition sample_globals :: "string globals" where
  "sample_globals =
     \<lparr> raw_alerts = JArr sample_alerts, mitre_map = sample_table, normalized_rows = [] \<rparr>"

definition sample_rows :: "string row list" where
  "sample_rows =
     [\<lparr> r_timestamp = Some ''2024-01-02T03:04:05Z'', r_source = JStr ''Acme'',
         r_alert_type = JStr ''SQL Injection detected'', r_severity_bucket = ''High'',
         r_mitre_tactic = JStr ''Initial Access'', r_mitre_technique = JStr ''T1190'' \<rparr>,
      \<lparr> r_timestamp = None, r_source = JStr ''Unknown'',
         r_alert_type = JStr ''Port Scan'', r_severity_bucket = ''Low'',
         r_mitre_tactic = JStr ''Discovery'', r_mitre_technique = JStr ''Unknown'' \<rparr>]"

text \<open>
  The value that \<open>parse_time\<close> hands to the parser for an alert, if any, and two parsers
  (the parser during two runs) giving the same result on every value that a run over
  \<open>raw_alerts\<close> hands over.
\<close>

fun parsed_value :: "json \<Rightarrow> json option" where
  "parsed_value (JObj kvs) = first_nonempty [''timestamp'', ''time'', ''event_time''] kvs"
| "parsed_value _ = None"

definition parsers_agree :: "(json \<Rightarrow> 'e + 'dt) \<Rightarrow> (json \<Rightarrow> 'e + 'dt) \<Rightarrow> json \<Rightarrow> bool" where
  "parsers_agree dparse1 dparse2 raw =
     (case py_iter raw of
        Inl e \<Rightarrow> True
      | Inr alerts \<Rightarrow>
          list_all (\<lambda>a. case parsed_value a of None \<Rightarrow> True
                          | Some v \<Rightarrow> dparse1 v = dparse2 v) alerts)"

text \<open>
  A stand-in for \<open>parser.parse\<close> during a run on the day \<open>today\<close>, for the examples. A
  text with a \<open>-\<close> is taken to hold its own date and gives the same datetime on every
  day; any other text is taken as a time of day, which \<open>dateutil\<close> completes with the
  date of the run. The datetime is the pair of the date filled in and the text.
\<close>

fun clock_parse :: "string \<Rightarrow> json \<Rightarrow> pyerr + string \<times> string" where
  "clock_parse today (JStr s) = (if CHR ''-'' \<in> set s then Inr ([], s) else Inr (today, s))"
| "clock_parse today _ = Inl TypeError"

definition dated_globals :: "(string \<times> string) globals" where
  "dated_globals =
     \<lparr> raw_alerts =
         JArr [JObj [(''timestamp'', JStr ''2024-01-02T03:04:05Z''), (''type'', JStr ''malware'')]],
       mitre_map = JObj [], normalized_rows = [] \<rparr>"

definition dated_rows :: "(string \<times> string) row list" where
  "dated_rows =
     [\<lparr> r_timestamp = Some ([], ''2024-01-02T03:04:05Z''), r_source = JStr ''Unknown'',
         r_alert_type = JStr ''malware'', r_severity_bucket = ''High'',
         r_mitre_tactic = JStr ''Unknown'', r_mitre_technique = JStr ''Unknown'' \<rparr>]"

definition undated_globals :: "(string \<times> string) globals" where
  "undated_globals =
     \<lparr> raw_alerts = JArr [JObj [(''time'', JStr ''10:30''), (''type'', JStr ''port scan'')]],
       mitre_map = JObj [], normalized_rows = [] \<rparr>"

definition undated_rows :: "string \<Rightarrow> (string \<times> string) row list" where
  "undated_rows today =
     [\<lparr> r_timestamp = Some (today, ''10:30''), r_source = JStr ''Unknown'',
         r_alert_type = JStr ''port scan'', r_severity_bucket = ''Medium'',
         r_mitre_tactic = JStr ''Unknown'', r_mitre_technique = JStr ''Unknown'' \<rparr>]"

section \<open>Wider text\<close>

text \<open>
  The files are read as UTF-8, so a keyword or an alert type may hold any code point. Here
  a \<open>str\<close> is the list of its code points. Python's \<open>lower\<close> and \<open>isupper\<close> are given
  per code point where this development has them: below 256 as above, and at U+211D
  (DOUBLE-STRUCK CAPITAL R, of category Lu), for which \<open>isupper\<close> holds and which has no
  lowercase mapping, so \<open>lower\<close> leaves it as it is. Elsewhere they are \<open>None\<close>.
\<close>

definition lower_cp :: "nat \<Rightarrow> nat option" where
  "lower_cp n =
     (if n < 256 then Some (of_char (lower_char (char_of n)))
      else if n = 8477 then Some 8477
      else None)"


fun lower_wide :: "nat list \<Rightarrow> nat list option" where
  "lower_wide [] = Some []"
| "lower_wide (n # ns) =
     (case lower_cp n of
        None \<Rightarrow> None
      | Some m \<Rightarrow> (case lower_wide ns of None \<Rightarrow> None | Some ms \<Rightarrow> Some (m # ms)))"

text \<open>
  \<open>mitre_enrich\<close> on the items of \<open>mitre_map\<close> and an alert type that is a \<open>str\<close>, both
  with their text as code points: the same loop, run on the lowercased text.
\<close>

definition mitre_enrich_wide ::
  "(nat list \<times> json) list \<Rightarrow> nat list \<Rightarrow> (pyerr + json \<times> json) option" where
  "mitre_enrich_wide items alert_type_text =
     (case lower_wide alert_type_text of
        None \<Rightarrow> None
      | Some text \<Rightarrow> Some (mitre_loop text items))"

text \<open>A \<open>str\<close> of the model above as code points, and a table with its keys so.\<close>

definition code_points :: "string \<Rightarrow> nat list" where
  "code_points s = map of_char s"

definition wide_items :: "(string \<times> json) list \<Rightarrow> (nat list \<times> json) list" where
  "wide_items items = map (\<lambda>kv. (code_points (fst kv), snd kv)) items"

section \<open>Lemmas on strings and lookups\<close>





lemma dict_get_obj: "dict_get (JObj kvs) k = Inr (field kvs k)"
  by (simp add: dict_get_def field_def)

lemma py_or_empty: "py_or (Inr v) (Inr (JStr [])) = Inr (if truthy v then v else JStr [])"
  by (simp add: py_or_def)

lemma str_lower_or_empty:
  "str_lower (if truthy v then v else JStr []) =
     (if str_or_falsy v then Inr (lower (text_of v)) else Inl AttributeError)"
  by (cases v) (auto simp: str_or_falsy_def lower_def)

section \<open>The severity classifier\<close>

lemma severity_bucket_char:
  "severity_bucket (JObj kvs) t =
     (if str_or_falsy (field kvs ''severity'') \<and> str_or_falsy t
      then Inr (classify_severity (text_of (field kvs ''severity'')) (text_of t))
      else Inl AttributeError)"
  unfolding severity_bucket_def
  by (simp add: dict_get_obj py_or_empty str_lower_or_empty classify_severity_def
        any_in_def Let_def)

lemma classify_severity_range:
  "classify_severity s t \<in> {''High'', ''Medium'', ''Low''}"
  by (simp add: classify_severity_def Let_def)

lemma field_removed: "field (filter (\<lambda>kv. fst kv \<noteq> k) kvs) k = JNull"
proof -
  have "map_of (filter (\<lambda>kv. fst kv \<noteq> k) kvs) k = None"
    by (induction kvs) auto
  then show ?thesis by (simp add: field_def)
qed

lemma strip_lower_empty: "strip (lower []) = []"
  by (simp add: strip_def lower_def)

text \<open>
  C2, as the code has it. When the record's severity value and the alert type value are
  each a \<open>str\<close> or not truthy (absent, \<open>None\<close>, \<open>False\<close>, zero, empty: \<open>or\<close> puts
  \<open>""\<close> in their place), \<open>severity_bucket\<close> returns what the spec's algorithm gives:
  the severity, lowercased and trimmed, decides when it is critical, high, medium or low,
  and only otherwise the keywords of the lowercased alert type decide. On every other
  record or alert type value it raises \<open>AttributeError\<close>.
\<close>

theorem severity_bucket_refines_spec:
  "severity_bucket (JObj kvs) t =
     (if str_or_falsy (field kvs ''severity'') \<and> str_or_falsy t
      then Inr (classify_severity (text_of (field kvs ''severity'')) (text_of t))
      else Inl AttributeError)"
  by (rule severity_bucket_char)

theorem severity_bucket_refines_spec_witness:
  "severity_bucket (JObj [(''severity'', JStr '' HIGH ''), (''type'', JStr ''port scan'')])
     (JStr ''port scan'') = Inr ''High''
   \<and> severity_bucket (JObj [(''type'', JStr ''SQL Injection detected'')])
     (JStr ''SQL Injection detected'') = Inr ''High''
   \<and> severity_bucket (JObj [(''severity'', JStr ''Info''), (''type'', JStr ''Failed Login'')])
     (JStr ''Failed Login'') = Inr ''Medium''
   \<and> severity_bucket (JObj [(''severity'', JNull)]) (JStr ''unexplained anomaly'') = Inr ''Low''"
proof -
  have e1: "(if str_or_falsy
        (field [(''severity'', JStr '' HIGH ''), (''type'', JStr ''port scan'')] ''severity'')
        \<and> str_or_falsy (JStr ''port scan'')
      then Inr (classify_severity
        (text_of (field [(''severity'', JStr '' HIGH ''), (''type'', JStr ''port scan'')]
          ''severity'')) (text_of (JStr ''port scan'')))
      else Inl AttributeError) = Inr ''High''"
    by code_simp
  have e2: "(if str_or_falsy (field [(''type'', JStr ''SQL Injection detected'')] ''severity'')
        \<and> str_or_falsy (JStr ''SQL Injection detected'')
      then Inr (classify_severity
        (text_of (field [(''type'', JStr ''SQL Injection detected'')] ''severity''))
        (text_of (JStr ''SQL Injection detected'')))
      else Inl AttributeError) = Inr ''High''"
    by code_simp
  have e3: "(if str_or_falsy
        (field [(''severity'', JStr ''Info''), (''type'', JStr ''Failed Login'')] ''severity'')
        \<and> str_or_falsy (JStr ''Failed Login'')
      then Inr (classify_severity
        (text_of (field [(''severity'', JStr ''Info''), (''type'', JStr ''Failed Login'')]
          ''severity'')) (text_of (JStr ''Failed Login'')))
      else Inl AttributeError) = Inr ''Medium''"
    by code_simp
  have e4: "(if str_or_falsy (field [(''severity'', JNull)] ''severity'')
        \<and> str_or_falsy (JStr ''unexplained anomaly'')
      then Inr (classify_severity (text_of (field [(''severity'', JNull)] ''severity''))
        (text_of (JStr ''unexplained anomaly'')))
      else Inl AttributeError) = Inr ''Low''"
    by code_simp
  from severity_bucket_refines_spec
         [of "[(''severity'', JStr '' HIGH ''), (''type'', JStr ''port scan'')]"
             "JStr ''port scan''"]
       severity_bucket_refines_spec
         [of "[(''type'', JStr ''SQL Injection detected'')]" "JStr ''SQL Injection detected''"]
       severity_bucket_refines_spec
         [of "[(''severity'', JStr ''Info''), (''type'', JStr ''Failed Login'')]"
             "JStr ''Failed Login''"]
       severity_bucket_refines_spec
         [of "[(''severity'', JNull)]" "JStr ''unexplained anomaly''"]
       e1 e2 e3 e4
  show ?thesis by (simp only: simp_thms)
qed

theorem severity_bucket_number_counterexample:
  "severity_bucket (JObj [(''severity'', JInt 3), (''type'', JStr ''malware'')]) (JStr ''malware'')
     = Inl AttributeError"
  by code_simp

lemma classify_unrecognized:
  "strip (lower s) \<notin> {''critical'', ''high'', ''medium'', ''low''} \<Longrightarrow>
   classify_severity s text = keyword_fallback (lower text)"
  by (simp add: classify_severity_def keyword_fallback_def Let_def)

text \<open>
  C7. A severity that is a \<open>str\<close> but, lowercased and trimmed, none of critical, high,
  medium and low gives the same result as the same record without the severity key, for
  every alert type value (an exception included); on an alert type text that result is the
  keyword fallback on the lowercased text, High, Medium or Low: there is no fourth bucket.
\<close>

theorem unrecognized_severity_as_absent:
  assumes "map_of kvs ''severity'' = Some (JStr s)"
    and "strip (lower s) \<notin> {''critical'', ''high'', ''medium'', ''low''}"
  shows "severity_bucket (JObj kvs) t =
           severity_bucket (JObj (filter (\<lambda>kv. fst kv \<noteq> ''severity'') kvs)) t
         \<and> severity_bucket (JObj kvs) (JStr text) = Inr (keyword_fallback (lower text))
         \<and> keyword_fallback (lower text) \<in> {''High'', ''Medium'', ''Low''}"
proof -
  have f: "field kvs ''severity'' = JStr s"
    using assms(1) by (simp add: field_def)
  have none: "strip (lower []) \<notin> {''critical'', ''high'', ''medium'', ''low''}"
    by (simp add: strip_lower_empty)
  have same: "severity_bucket (JObj kvs) t =
      severity_bucket (JObj (filter (\<lambda>kv. fst kv \<noteq> ''severity'') kvs)) t"
    by (simp add: severity_bucket_char f field_removed str_or_falsy_def
          classify_unrecognized [OF assms(2)] classify_unrecognized [OF none])
  have fall: "severity_bucket (JObj kvs) (JStr text) = Inr (keyword_fallback (lower text))"
    by (simp add: severity_bucket_char f str_or_falsy_def classify_unrecognized [OF assms(2)])
  have rng: "keyword_fallback (lower text) \<in> {''High'', ''Medium'', ''Low''}"
    by (simp add: keyword_fallback_def)
  from same fall rng show ?thesis by (intro conjI)
qed

theorem unrecognized_severity_as_absent_witness:
  "map_of [(''severity'', JStr ''informational''), (''type'', JStr ''malware found'')] ''severity''
     = Some (JStr ''informational'')
   \<and> strip (lower ''informational'') \<notin> {''critical'', ''high'', ''medium'', ''low''}
   \<and> severity_bucket
        (JObj [(''severity'', JStr ''informational''), (''type'', JStr ''malware found'')])
        (JStr ''malware found'') = Inr ''High''
   \<and> severity_bucket
        (JObj [(''severity'', JStr ''informational''), (''type'', JStr ''malware found'')])
        (JStr ''Port Scan'') = Inr ''Medium''"
proof -
  have h1: "map_of [(''severity'', JStr ''informational''), (''type'', JStr ''malware found'')]
      ''severity'' = Some (JStr ''informational'')"
    by simp
  have h2: "strip (lower ''informational'') \<notin> {''critical'', ''high'', ''medium'', ''low''}"
    by code_simp
  have e1: "keyword_fallback (lower ''malware found'') = ''High''"
    by code_simp
  have e2: "keyword_fallback (lower ''Port Scan'') = ''Medium''"
    by code_simp
  from unrecognized_severity_as_absent [OF h1 h2, of JNull "''malware found''"]
       unrecognized_severity_as_absent [OF h1 h2, of JNull "''Port Scan''"] e1 e2 h1 h2
  show ?thesis by (simp only: simp_thms)
qed

section \<open>The MITRE lookup\<close>

lemma mitre_enrich_char:
  "mitre_enrich (JObj items) t =
     (if str_or_falsy t then mitre_loop (lower (text_of t)) items else Inl AttributeError)"
  unfolding mitre_enrich_def
  by (simp add: py_or_empty str_lower_or_empty)

lemma mitre_loop_skip:
  "\<forall>kv \<in> set pre. \<not> py_in (fst kv) text \<Longrightarrow>
   mitre_loop text (pre @ rest) = mitre_loop text rest"
  by (induction pre) auto

lemma mitre_loop_no_hit:
  "\<forall>kv \<in> set items. \<not> py_in (fst kv) text \<Longrightarrow>
   mitre_loop text items = Inr (JStr ''Unknown'', JStr ''Unknown'')"
  using mitre_loop_skip [of items "text" "[]"] by simp

lemma mitre_loop_returns:
  "mitre_loop text items =
     (case first_hit text items of
        None \<Rightarrow> Inr (JStr ''Unknown'', JStr ''Unknown'')
      | Some kv \<Rightarrow>
          (case dict_get_default (snd kv) ''tactic'' (JStr ''Unknown'') of
             Inl e \<Rightarrow> Inl e
           | Inr tactic \<Rightarrow>
          (case dict_get_default (snd kv) ''technique'' (JStr ''Unknown'') of
             Inl e \<Rightarrow> Inl e
           | Inr technique \<Rightarrow> Inr (tactic, technique))))"
  by (induction items) (auto simp: first_hit_def split: sum.splits)

lemma hit_returns:
  "(case dict_get_default m ''tactic'' (JStr ''Unknown'') of
      Inl e \<Rightarrow> Inl e
    | Inr tactic \<Rightarrow>
   (case dict_get_default m ''technique'' (JStr ''Unknown'') of
      Inl e \<Rightarrow> Inl e
    | Inr technique \<Rightarrow> Inr (tactic, technique))) =
   (if is_obj m
    then Inr (case dict_get_default m ''tactic'' (JStr ''Unknown'') of Inr v \<Rightarrow> v,
              case dict_get_default m ''technique'' (JStr ''Unknown'') of Inr v \<Rightarrow> v)
    else Inl AttributeError)"
  by (cases m) auto

text \<open>
  C1, as the code has it. \<open>severity_bucket\<close> returns, and then one of High, Medium and
  Low, exactly when the record's severity value and the alert type value are each a
  \<open>str\<close> or not truthy; \<open>mitre_enrich\<close> returns exactly when the alert type value is a
  \<open>str\<close> or not truthy and the first table entry whose keyword occurs in the text, if
  there is one, is a \<open>dict\<close>. In every other case the call raises \<open>AttributeError\<close>.
\<close>

theorem classifiers_return_iff_texts:
  "(if str_or_falsy (field kvs ''severity'') \<and> str_or_falsy t
    then severity_bucket (JObj kvs) t \<in> {Inr ''High'', Inr ''Medium'', Inr ''Low''}
    else severity_bucket (JObj kvs) t = Inl AttributeError)
   \<and>
   (if str_or_falsy t \<and>
       (case first_hit (lower (text_of t)) items of None \<Rightarrow> True | Some kv \<Rightarrow> is_obj (snd kv))
    then \<exists>tactic technique. mitre_enrich (JObj items) t = Inr (tactic, technique)
    else mitre_enrich (JObj items) t = Inl AttributeError)"
proof -
  have sev: "if str_or_falsy (field kvs ''severity'') \<and> str_or_falsy t
    then severity_bucket (JObj kvs) t \<in> {Inr ''High'', Inr ''Medium'', Inr ''Low''}
    else severity_bucket (JObj kvs) t = Inl AttributeError"
    using classify_severity_range [of "text_of (field kvs ''severity'')" "text_of t"]
    by (simp add: severity_bucket_char)
  have mit: "if str_or_falsy t \<and>
       (case first_hit (lower (text_of t)) items of None \<Rightarrow> True | Some kv \<Rightarrow> is_obj (snd kv))
    then \<exists>tactic technique. mitre_enrich (JObj items) t = Inr (tactic, technique)
    else mitre_enrich (JObj items) t = Inl AttributeError"
    by (simp add: mitre_enrich_char mitre_loop_returns hit_returns split: option.splits)
  from sev mit show ?thesis by (rule conjI)
qed

theorem classifiers_return_iff_texts_witness:
  "severity_bucket (JObj [(''type'', JStr ''Malware'')]) JNull
     \<in> {Inr ''High'', Inr ''Medium'', Inr ''Low''}
   \<and> (\<exists>tactic technique.
        mitre_enrich (JObj [(''malware'', JObj [])]) JNull = Inr (tactic, technique))"
proof -
  have c1: "str_or_falsy (field [(''type'', JStr ''Malware'')] ''severity'') \<and> str_or_falsy JNull"
    by code_simp
  have c2: "str_or_falsy JNull \<and>
     (case first_hit (lower (text_of JNull)) [(''malware'', JObj [])] of
        None \<Rightarrow> True | Some kv \<Rightarrow> is_obj (snd kv))"
    by code_simp
  from classifiers_return_iff_texts
         [of "[(''type'', JStr ''Malware'')]" JNull "[(''malware'', JObj [])]"] c1 c2
  show ?thesis by (simp only: if_True simp_thms)
qed

theorem classifiers_raise_counterexample:
  "severity_bucket (JObj [(''severity'', JInt 3)]) (JStr ''port scan'') = Inl AttributeError
   \<and> mitre_enrich (JObj []) (JInt 404) = Inl AttributeError"
  by code_simp


text \<open>
  C3. On an alert type text \<open>s\<close>, with \<open>pre\<close> the table entries declared before \<open>k\<close>:
  when no keyword of \<open>pre\<close> occurs in the lowercased text and \<open>k\<close> does, the result is
  the tactic and technique of \<open>k\<close>'s entry, whatever is declared after it; a table none
  of whose keywords occurs gives \<open>("Unknown", "Unknown")\<close>.
\<close>

theorem mitre_enrich_first_declared_match:
  assumes "\<forall>kv \<in> set pre. \<not> py_in (fst kv) (lower s)"
  shows "(py_in k (lower s) \<and> map_of fs ''tactic'' = Some tactic
            \<and> map_of fs ''technique'' = Some technique
          \<longrightarrow> mitre_enrich (JObj (pre @ (k, JObj fs) # post)) (JStr s) = Inr (tactic, technique))
         \<and> mitre_enrich (JObj pre) (JStr s) = Inr (JStr ''Unknown'', JStr ''Unknown'')"
  using assms
  by (simp add: mitre_enrich_char str_or_falsy_def mitre_loop_skip mitre_loop_no_hit)

theorem mitre_enrich_first_declared_match_witness:
  "py_in ''brute force'' (lower ''Brute Force login attempt'')
   \<and> mitre_enrich
       (JObj [(''malware'', JObj [(''tactic'', JStr ''Execution''), (''technique'', JStr ''T1204'')]),
              (''brute force'',
                 JObj [(''tactic'', JStr ''Credential Access''), (''technique'', JStr ''T1110'')]),
              (''login'', JObj [(''tactic'', JStr ''X''), (''technique'', JStr ''Y'')])])
       (JStr ''Brute Force login attempt'') = Inr (JStr ''Credential Access'', JStr ''T1110'')
   \<and> mitre_enrich
       (JObj [(''malware'', JObj [(''tactic'', JStr ''Execution''), (''technique'', JStr ''T1204'')])])
       (JStr ''Brute Force login attempt'') = Inr (JStr ''Unknown'', JStr ''Unknown'')"
proof -
  have h: "\<forall>kv \<in> set [(''malware'', JObj [(''tactic'', JStr ''Execution''), (''technique'', JStr ''T1204'')])].
      \<not> py_in (fst kv) (lower ''Brute Force login attempt'')"
    by code_simp
  have k: "py_in ''brute force'' (lower ''Brute Force login attempt'')"
    by code_simp
  have f1: "map_of [(''tactic'', JStr ''Credential Access''), (''technique'', JStr ''T1110'')]
      ''tactic'' = Some (JStr ''Credential Access'')"
    by simp
  have f2: "map_of [(''tactic'', JStr ''Credential Access''), (''technique'', JStr ''T1110'')]
      ''technique'' = Some (JStr ''T1110'')"
    by simp
  from mitre_enrich_first_declared_match [OF h, of "''brute force''"
      "[(''tactic'', JStr ''Credential Access''), (''technique'', JStr ''T1110'')]"
      "JStr ''Credential Access''" "JStr ''T1110''"
      "[(''login'', JObj [(''tactic'', JStr ''X''), (''technique'', JStr ''Y'')])]"] h k f1 f2
  show ?thesis by (simp only: simp_thms append.simps)
qed

text \<open>
  C9. The entry of the first keyword that occurs may lack \<open>tactic\<close> or \<open>technique\<close>:
  each missing component is \<open>"Unknown"\<close>, each present one is returned, and nothing is
  raised.
\<close>

theorem mitre_enrich_missing_component:
  assumes "\<forall>kv \<in> set pre. \<not> py_in (fst kv) (lower s)" and "py_in k (lower s)"
  shows "mitre_enrich (JObj (pre @ (k, JObj fs) # post)) (JStr s) =
           Inr (case map_of fs ''tactic'' of None \<Rightarrow> JStr ''Unknown'' | Some v \<Rightarrow> v,
                case map_of fs ''technique'' of None \<Rightarrow> JStr ''Unknown'' | Some v \<Rightarrow> v)"
  using assms
  by (simp add: mitre_enrich_char str_or_falsy_def mitre_loop_skip)

theorem mitre_enrich_missing_component_witness:
  "py_in ''malware'' (lower ''Malware found'')
   \<and> mitre_enrich
       (JObj [(''port scan'', JObj []), (''malware'', JObj [(''technique'', JStr ''T1204'')])])
       (JStr ''Malware found'') = Inr (JStr ''Unknown'', JStr ''T1204'')"
proof -
  have h: "\<forall>kv \<in> set [(''port scan'', JObj [])]. \<not> py_in (fst kv) (lower ''Malware found'')"
    by code_simp
  have k: "py_in ''malware'' (lower ''Malware found'')"
    by code_simp
  have e: "(case map_of [(''technique'', JStr ''T1204'')] ''tactic'' of
              None \<Rightarrow> JStr ''Unknown'' | Some v \<Rightarrow> v,
            case map_of [(''technique'', JStr ''T1204'')] ''technique'' of
              None \<Rightarrow> JStr ''Unknown'' | Some v \<Rightarrow> v) = (JStr ''Unknown'', JStr ''T1204'')"
    by simp
  from mitre_enrich_missing_component [OF h k, of "[(''technique'', JStr ''T1204'')]" "[]"] e h k
  show ?thesis by (simp only: simp_thms append.simps)
qed

lemma lower_wide_code_points: "lower_wide (code_points s) = Some (code_points (lower s))"
  by (induction s) (simp_all add: code_points_def lower_def lower_cp_def)

lemma prefix_code_points: "prefix (code_points k) (code_points t) = prefix k t"
proof -
  have inj: "inj (of_char :: char \<Rightarrow> nat)"
    by (rule inj_of_char)
  have "prefix (map of_char k) (map of_char t :: nat list) = prefix k t"
  proof (induction k arbitrary: t)
    case Nil
    show ?case by simp
  next
    case (Cons c k)
    then show ?case by (cases t) auto
  qed
  then show ?thesis by (simp add: code_points_def)
qed

lemma py_in_code_points: "py_in (code_points k) (code_points t) = py_in k t"
proof (induction t)
  case Nil
  show ?case by (simp add: code_points_def)
next
  case (Cons c t)
  have "prefix (code_points k) (code_points (c # t)) = prefix k (c # t)"
    by (rule prefix_code_points)
  with Cons show ?case by (simp add: code_points_def)
qed

lemma mitre_loop_code_points:
  "mitre_loop (code_points t) (wide_items items) = mitre_loop t items"
  by (induction items) (auto simp: wide_items_def py_in_code_points split: sum.splits)

lemma mitre_enrich_wide_agrees:
  "mitre_enrich_wide (wide_items items) (code_points s) = Some (mitre_enrich (JObj items) (JStr s))"
  by (simp add: mitre_enrich_wide_def lower_wide_code_points mitre_loop_code_points
        mitre_enrich_char str_or_falsy_def)




section \<open>The field resolver\<close>

lemma first_nonempty_truthy: "first_nonempty ns kvs = Some v \<Longrightarrow> truthy v"
  by (induction ns) (auto split: option.splits if_splits)

lemma or_chain3:
  "py_or (dict_get (JObj kvs) n1)
     (py_or (dict_get (JObj kvs) n2) (py_or (dict_get (JObj kvs) n3) (Inr d))) =
   Inr (case first_nonempty [n1, n2, n3] kvs of None \<Rightarrow> d | Some v \<Rightarrow> v)"
  by (simp add: dict_get_obj py_or_def field_def split: option.splits)

lemma or_chain3_get:
  "py_or (dict_get (JObj kvs) n1)
     (py_or (dict_get (JObj kvs) n2) (dict_get (JObj kvs) n3)) =
   Inr (case first_nonempty [n1, n2] kvs of None \<Rightarrow> field kvs n3 | Some v \<Rightarrow> v)"
  by (simp add: dict_get_obj py_or_def field_def split: option.splits)

lemma last_field:
  "first_nonempty [n1, n2] kvs = None \<Longrightarrow>
   first_nonempty [n1, n2, n3] kvs = (if truthy (field kvs n3) then Some (field kvs n3) else None)"
  by (auto simp: field_def split: option.splits if_splits)

lemma first_two:
  "first_nonempty [n1, n2] kvs = Some v \<Longrightarrow> first_nonempty [n1, n2, n3] kvs = Some v"
  by (auto split: option.splits if_splits)

lemma parse_time_char:
  "parse_time dparse (JObj kvs) =
     Inr (case first_nonempty [''timestamp'', ''time'', ''event_time''] kvs of
            None \<Rightarrow> None
          | Some v \<Rightarrow> (case dparse v of Inl ex \<Rightarrow> None | Inr d \<Rightarrow> Some d))"
proof (cases "first_nonempty [''timestamp'', ''time''] kvs")
  case None
  then show ?thesis
    unfolding parse_time_def or_chain3_get
    by (simp add: last_field [OF None] del: first_nonempty.simps split: sum.splits)
next
  case (Some v)
  then show ?thesis
    unfolding parse_time_def or_chain3_get
    by (simp add: first_two [OF Some] first_nonempty_truthy [OF Some]
          del: first_nonempty.simps split: sum.splits)
qed

text \<open>
  C5. On a record, \<open>parse_time\<close> never raises. It takes the first of \<open>timestamp\<close>,
  \<open>time\<close>, \<open>event_time\<close> whose value is present and non-empty (not truthy values count
  as empty) and returns what the parser makes of it; it returns \<open>None\<close> when there is no
  such field or the parser raises. A non-empty \<open>timestamp\<close> is the value parsed,
  whatever \<open>time\<close> and \<open>event_time\<close> hold.
\<close>

theorem parse_time_first_present_field:
  "parse_time dparse (JObj kvs) =
     Inr (case first_nonempty [''timestamp'', ''time'', ''event_time''] kvs of
            None \<Rightarrow> None
          | Some v \<Rightarrow> (case dparse v of Inl ex \<Rightarrow> None | Inr d \<Rightarrow> Some d))
   \<and> (map_of kvs ''timestamp'' = Some v \<and> truthy v \<longrightarrow>
        parse_time dparse (JObj kvs) =
          Inr (case dparse v of Inl ex \<Rightarrow> None | Inr d \<Rightarrow> Some d))"
  by (simp add: parse_time_char)

theorem parse_time_first_present_field_witness:
  "map_of [(''time'', JStr ''yesterday''), (''timestamp'', JStr ''2024-01-02T03:04:05Z'')]
     ''timestamp'' = Some (JStr ''2024-01-02T03:04:05Z'')
   \<and> truthy (JStr ''2024-01-02T03:04:05Z'')
   \<and> parse_time sample_parse
        (JObj [(''time'', JStr ''yesterday''), (''timestamp'', JStr ''2024-01-02T03:04:05Z'')])
      = Inr (Some ''2024-01-02T03:04:05Z'')"
proof -
  have h1: "map_of [(''time'', JStr ''yesterday''), (''timestamp'', JStr ''2024-01-02T03:04:05Z'')]
      ''timestamp'' = Some (JStr ''2024-01-02T03:04:05Z'')"
    by simp
  have h2: "truthy (JStr ''2024-01-02T03:04:05Z'')"
    by simp
  have e: "(case sample_parse (JStr ''2024-01-02T03:04:05Z'') of
              Inl ex \<Rightarrow> None | Inr d \<Rightarrow> Some d) = Some ''2024-01-02T03:04:05Z''"
    by simp
  from parse_time_first_present_field [of sample_parse
      "[(''time'', JStr ''yesterday''), (''timestamp'', JStr ''2024-01-02T03:04:05Z'')]"
      "JStr ''2024-01-02T03:04:05Z''", THEN conjunct2] e h1 h2
  show ?thesis by (simp only: simp_thms)
qed

text \<open>
  C6. On a record, \<open>pick_source\<close> returns the first present, non-empty value among
  \<open>source\<close>, \<open>vendor\<close>, \<open>product\<close> and \<open>"Unknown"\<close> when there is none;
  \<open>pick_alert_type\<close> does the same with \<open>type\<close>, \<open>alert_type\<close>, \<open>signature\<close>.
  Neither returns the empty string.
\<close>

theorem pick_first_nonempty_or_unknown:
  "pick_source (JObj kvs) =
     Inr (case first_nonempty [''source'', ''vendor'', ''product''] kvs of
            None \<Rightarrow> JStr ''Unknown'' | Some v \<Rightarrow> v)
   \<and> pick_alert_type (JObj kvs) =
     Inr (case first_nonempty [''type'', ''alert_type'', ''signature''] kvs of
            None \<Rightarrow> JStr ''Unknown'' | Some v \<Rightarrow> v)
   \<and> pick_source (JObj kvs) \<noteq> Inr (JStr [])
   \<and> pick_alert_type (JObj kvs) \<noteq> Inr (JStr [])"
proof -
  have ne: "(case first_nonempty ns kvs of None \<Rightarrow> JStr ''Unknown'' | Some v \<Rightarrow> v) \<noteq> JStr []"
    for ns
    using first_nonempty_truthy [of ns kvs] by (auto split: option.splits)
  show ?thesis
    unfolding pick_source_def pick_alert_type_def or_chain3
    using ne by (simp del: first_nonempty.simps)
qed

theorem pick_first_nonempty_or_unknown_witness:
  "pick_source (JObj [(''source'', JStr []), (''product'', JStr ''IDS''), (''vendor'', JStr ''Acme'')])
     = Inr (JStr ''Acme'')
   \<and> pick_alert_type (JObj [(''source'', JStr []), (''product'', JStr ''IDS''), (''vendor'', JStr ''Acme'')])
     = Inr (JStr ''Unknown'')"
proof -
  have e1: "(case first_nonempty [''source'', ''vendor'', ''product'']
               [(''source'', JStr []), (''product'', JStr ''IDS''), (''vendor'', JStr ''Acme'')] of
             None \<Rightarrow> JStr ''Unknown'' | Some v \<Rightarrow> v) = JStr ''Acme''"
    by code_simp
  have e2: "(case first_nonempty [''type'', ''alert_type'', ''signature'']
               [(''source'', JStr []), (''product'', JStr ''IDS''), (''vendor'', JStr ''Acme'')] of
             None \<Rightarrow> JStr ''Unknown'' | Some v \<Rightarrow> v) = JStr ''Unknown''"
    by code_simp
  from pick_first_nonempty_or_unknown
      [of "[(''source'', JStr []), (''product'', JStr ''IDS''), (''vendor'', JStr ''Acme'')]"] e1 e2
  show ?thesis by (simp only: simp_thms)
qed

section \<open>The normalization loop\<close>

lemma normalize_loop_acc:
  "normalize_loop dparse m alerts rows =
     (case normalize_loop dparse m alerts [] of Inl e \<Rightarrow> Inl e | Inr rs \<Rightarrow> Inr (rows @ rs))"
proof (induction alerts arbitrary: rows)
  case Nil
  show ?case by simp
next
  case (Cons a alerts)
  show ?case
  proof (cases "normalize_one dparse m a")
    case (Inl e)
    then show ?thesis by simp
  next
    case (Inr r)
    show ?thesis
      using Cons [of "rows @ [r]"] Cons [of "[r]"] Inr
      by (simp split: sum.splits)
  qed
qed

lemma normalize_loop_Cons:
  "normalize_loop dparse m (a # alerts) [] =
     (case normalize_one dparse m a of
        Inl e \<Rightarrow> Inl e
      | Inr r \<Rightarrow>
          (case normalize_loop dparse m alerts [] of
             Inl e \<Rightarrow> Inl e
           | Inr rs \<Rightarrow> Inr (r # rs)))"
proof (cases "normalize_one dparse m a")
  case (Inl e)
  then show ?thesis by simp
next
  case (Inr r)
  then show ?thesis
    using normalize_loop_acc [of dparse m alerts "[r]"] by (simp split: sum.splits)
qed

lemma normalize_loop_rows:
  "normalize_loop dparse m alerts [] = Inr rows \<Longrightarrow>
   list_all2 (\<lambda>a r. normalize_one dparse m a = Inr r) alerts rows"
proof (induction alerts arbitrary: rows)
  case Nil
  then show ?case by simp
next
  case (Cons a alerts)
  then show ?case
    by (auto simp: normalize_loop_Cons simp del: normalize_loop.simps split: sum.splits)
qed

lemma mitre_loop_ok:
  "list_all (\<lambda>kv. entry_ok (snd kv)) items \<Longrightarrow>
   \<exists>tactic technique. mitre_loop text items = Inr (tactic, technique)
      \<and> is_str tactic \<and> is_str technique"
proof (induction items)
  case Nil
  show ?case by simp
next
  case (Cons kv items)
  obtain k m where kv: "kv = (k, m)" by (cases kv)
  from Cons.prems kv obtain fs where m: "m = JObj fs"
    by (cases m) auto
  from Cons show ?case
    by (auto simp: kv m split: option.splits)
qed

lemma normalize_one_ok:
  assumes "alert_ok a" and "table_ok m"
  shows "\<exists>r. normalize_one dparse m a = Inr r
           \<and> r_severity_bucket r \<in> {''High'', ''Medium'', ''Low''}
           \<and> is_str (r_mitre_tactic r) \<and> is_str (r_mitre_technique r)"
proof -
  from assms(1) obtain kvs where a: "a = JObj kvs"
    by (cases a) auto
  from assms(2) obtain items where m: "m = JObj items"
    by (cases m) auto
  from assms(1) a obtain s where ty: "pick_alert_type (JObj kvs) = Inr (JStr s)"
    and sv: "str_or_falsy (field kvs ''severity'')"
    by (auto split: sum.splits elim: is_str.elims)
  have src: "\<exists>v. pick_source (JObj kvs) = Inr v"
    by (simp add: pick_source_def or_chain3)
  have sev: "\<exists>b. severity_bucket (JObj kvs) (JStr s) = Inr b \<and> b \<in> {''High'', ''Medium'', ''Low''}"
    using sv classify_severity_range [of "text_of (field kvs ''severity'')" s]
    by (simp add: severity_bucket_char str_or_falsy_def)
  have mit: "\<exists>tactic technique. mitre_enrich (JObj items) (JStr s) = Inr (tactic, technique)
      \<and> is_str tactic \<and> is_str technique"
    using assms(2) m mitre_loop_ok [of items "lower s"]
    by (simp add: mitre_enrich_char str_or_falsy_def)
  from src sev mit show ?thesis
    unfolding normalize_one_def a m
    by (auto simp: ty parse_time_char simp del: first_nonempty.simps)
qed

lemma normalize_loop_ok:
  assumes "list_all alert_ok alerts" and "table_ok m"
  shows "\<exists>rows. normalize_loop dparse m alerts [] = Inr rows
           \<and> length rows = length alerts
           \<and> list_all (\<lambda>r. r_severity_bucket r \<in> {''High'', ''Medium'', ''Low''}
                \<and> is_str (r_mitre_tactic r) \<and> is_str (r_mitre_technique r)) rows"
  using assms(1)
proof (induction alerts)
  case Nil
  show ?case by simp
next
  case (Cons a alerts)
  from Cons.prems have "alert_ok a" by simp
  from normalize_one_ok [OF this assms(2), of dparse]
  obtain r where r: "normalize_one dparse m a = Inr r"
    "r_severity_bucket r \<in> {''High'', ''Medium'', ''Low''}"
    "is_str (r_mitre_tactic r)" "is_str (r_mitre_technique r)"
    by blast
  from Cons obtain rows where rows: "normalize_loop dparse m alerts [] = Inr rows"
    "length rows = length alerts"
    "list_all (\<lambda>r. r_severity_bucket r \<in> {''High'', ''Medium'', ''Low''}
        \<and> is_str (r_mitre_tactic r) \<and> is_str (r_mitre_technique r)) rows"
    by auto
  show ?case
    unfolding normalize_loop_Cons
    using r rows by simp
qed

text \<open>
  C4, as the code has it. When \<open>raw_alerts\<close> is a list of \<open>N\<close> records whose severity
  value is a \<open>str\<close> or not truthy and whose picked alert type is a \<open>str\<close>, and the
  mapping table is a \<open>dict\<close> of \<open>dict\<close>s whose tactic and technique are \<open>str\<close> or
  missing, the loop returns with \<open>N\<close> rows, the \<open>i\<close>-th row being the one made from the
  \<open>i\<close>-th alert; in every row the severity bucket is High, Medium or Low and the tactic
  and the technique are \<open>str\<close>.
\<close>

theorem normalize_all_one_row_per_alert:
  assumes "raw_alerts g = JArr alerts" and "list_all alert_ok alerts"
    and "table_ok (mitre_map g)"
  shows "\<exists>rows. normalize_all dparse g = Inr (g\<lparr>normalized_rows := rows\<rparr>)
           \<and> length rows = length alerts
           \<and> list_all2 (\<lambda>a r. normalize_one dparse (mitre_map g) a = Inr r) alerts rows
           \<and> list_all (\<lambda>r. r_severity_bucket r \<in> {''High'', ''Medium'', ''Low''}
                \<and> is_str (r_mitre_tactic r) \<and> is_str (r_mitre_technique r)) rows"
proof -
  from normalize_loop_ok [OF assms(2) assms(3), of dparse]
  obtain rows where rows: "normalize_loop dparse (mitre_map g) alerts [] = Inr rows"
    "length rows = length alerts"
    "list_all (\<lambda>r. r_severity_bucket r \<in> {''High'', ''Medium'', ''Low''}
        \<and> is_str (r_mitre_tactic r) \<and> is_str (r_mitre_technique r)) rows"
    by blast
  from rows(1) have "list_all2 (\<lambda>a r. normalize_one dparse (mitre_map g) a = Inr r) alerts rows"
    by (rule normalize_loop_rows)
  with rows assms(1) show ?thesis
    by (intro exI [of _ rows]) (simp add: normalize_all_def)
qed

theorem normalize_all_one_row_per_alert_witness:
  "raw_alerts sample_globals = JArr sample_alerts
   \<and> list_all alert_ok sample_alerts
   \<and> table_ok (mitre_map sample_globals)
   \<and> (\<exists>rows. normalize_all sample_parse sample_globals
                 = Inr (sample_globals\<lparr>normalized_rows := rows\<rparr>)
         \<and> length rows = length sample_alerts
         \<and> list_all2 (\<lambda>a r. normalize_one sample_parse (mitre_map sample_globals) a = Inr r)
               sample_alerts rows
         \<and> list_all (\<lambda>r. r_severity_bucket r \<in> {''High'', ''Medium'', ''Low''}
              \<and> is_str (r_mitre_tactic r) \<and> is_str (r_mitre_technique r)) rows)"
proof -
  have h1: "raw_alerts sample_globals = JArr sample_alerts"
    by (simp add: sample_globals_def)
  have h2: "list_all alert_ok sample_alerts"
    by code_simp
  have h3: "table_ok (mitre_map sample_globals)"
    by code_simp
  from normalize_all_one_row_per_alert [OF h1 h2 h3, of sample_parse] h1 h2 h3
  show ?thesis by (simp only: simp_thms)
qed

theorem normalize_all_counterexample:
  "normalize_all sample_parse
     \<lparr> raw_alerts = JArr [JObj [(''type'', JStr ''port scan'')], JObj [(''severity'', JInt 3)]],
       mitre_map = JObj [], normalized_rows = [] \<rparr> = Inl AttributeError
   \<and> normalize_all sample_parse
     \<lparr> raw_alerts = JArr [JObj [(''type'', JStr ''malware'')]],
       mitre_map = JObj [(''malware'', JObj [(''tactic'', JNull)])], normalized_rows = [] \<rparr>
     = Inr \<lparr> raw_alerts = JArr [JObj [(''type'', JStr ''malware'')]],
             mitre_map = JObj [(''malware'', JObj [(''tactic'', JNull)])],
             normalized_rows =
               [\<lparr> r_timestamp = None, r_source = JStr ''Unknown'',
                   r_alert_type = JStr ''malware'', r_severity_bucket = ''High'',
                   r_mitre_tactic = JNull, r_mitre_technique = JStr ''Unknown'' \<rparr>] \<rparr>"
  by code_simp

lemma pick_alert_type_not_dict:
  "\<not> is_obj a \<Longrightarrow> pick_alert_type a = Inl AttributeError"
  by (cases a) (simp_all add: pick_alert_type_def py_or_def dict_get_def)

lemma normalize_one_agree:
  assumes "case parsed_value a of None \<Rightarrow> True | Some v \<Rightarrow> dparse1 v = dparse2 v"
  shows "normalize_one dparse1 m a = normalize_one dparse2 m a"
proof (cases "is_obj a")
  case False
  then show ?thesis
    by (simp add: normalize_one_def pick_alert_type_not_dict)
next
  case True
  then obtain kvs where a: "a = JObj kvs"
    by (cases a) auto
  have "parse_time dparse1 (JObj kvs) = parse_time dparse2 (JObj kvs)"
    using assms unfolding a parse_time_char
    by (simp del: first_nonempty.simps split: option.splits)
  then show ?thesis
    by (simp add: normalize_one_def a split: sum.splits)
qed

lemma normalize_loop_agree:
  assumes "list_all (\<lambda>a. case parsed_value a of None \<Rightarrow> True
                          | Some v \<Rightarrow> dparse1 v = dparse2 v) alerts"
  shows "normalize_loop dparse1 m alerts rows = normalize_loop dparse2 m alerts rows"
  using assms
proof (induction alerts arbitrary: rows)
  case Nil
  show ?case by simp
next
  case (Cons a alerts)
  from Cons.prems have "normalize_one dparse1 m a = normalize_one dparse2 m a"
    by (simp add: normalize_one_agree)
  moreover from Cons have
    "normalize_loop dparse1 m alerts rs = normalize_loop dparse2 m alerts rs" for rs
    by simp
  ultimately show ?case
    by (simp split: sum.splits)
qed

text \<open>
  C8, as the code has it. The loop keeps no state of its own: a run that returns leaves
  \<open>raw_alerts\<close> and \<open>mitre_map\<close> as they were and sets \<open>normalized_rows\<close> anew. A second
  run, from the globals the first one left or from any other earlier rows, ends in the same
  globals whenever the parser gives, during the second run, the same result as during the
  first on every value parsed. (On a text without a date the parser of \<open>dateutil\<close> does
  not, when the day has changed.)
\<close>

theorem normalize_all_idempotent:
  assumes "normalize_all dparse1 g = Inr g'"
    and "parsers_agree dparse1 dparse2 (raw_alerts g)"
  shows "raw_alerts g' = raw_alerts g \<and> mitre_map g' = mitre_map g
         \<and> normalize_all dparse2 g' = Inr g'
         \<and> normalize_all dparse2 (g\<lparr>normalized_rows := rs\<rparr>) = Inr g'"
proof -
  from assms(1) obtain alerts rows where it: "py_iter (raw_alerts g) = Inr alerts"
    and lp: "normalize_loop dparse1 (mitre_map g) alerts [] = Inr rows"
    and g': "g' = g\<lparr>normalized_rows := rows\<rparr>"
    by (auto simp: normalize_all_def split: sum.splits)
  from assms(2) it have "list_all (\<lambda>a. case parsed_value a of None \<Rightarrow> True
      | Some v \<Rightarrow> dparse1 v = dparse2 v) alerts"
    by (simp add: parsers_agree_def)
  then have "normalize_loop dparse2 (mitre_map g) alerts [] = Inr rows"
    using lp normalize_loop_agree [of dparse1 dparse2 alerts "mitre_map g" "[]"] by simp
  then show ?thesis
    using it by (simp add: g' normalize_all_def)
qed

theorem normalize_all_idempotent_witness:
  "normalize_all (clock_parse ''2024-01-01'') dated_globals
     = Inr (dated_globals\<lparr>normalized_rows := dated_rows\<rparr>)
   \<and> parsers_agree (clock_parse ''2024-01-01'') (clock_parse ''2024-01-02'')
        (raw_alerts dated_globals)
   \<and> normalize_all (clock_parse ''2024-01-02'') (dated_globals\<lparr>normalized_rows := dated_rows\<rparr>)
       = Inr (dated_globals\<lparr>normalized_rows := dated_rows\<rparr>)"
proof -
  have h1: "normalize_all (clock_parse ''2024-01-01'') dated_globals
      = Inr (dated_globals\<lparr>normalized_rows := dated_rows\<rparr>)"
    by code_simp
  have h2: "parsers_agree (clock_parse ''2024-01-01'') (clock_parse ''2024-01-02'')
      (raw_alerts dated_globals)"
    by code_simp
  from normalize_all_idempotent [OF h1 h2] h1 h2
  show ?thesis by (simp only: simp_thms)
qed

theorem normalize_all_clock_counterexample:
  "normalize_all (clock_parse ''2024-01-01'') undated_globals
     = Inr (undated_globals\<lparr>normalized_rows := undated_rows ''2024-01-01''\<rparr>)
   \<and> normalize_all (clock_parse ''2024-01-02'')
        (undated_globals\<lparr>normalized_rows := undated_rows ''2024-01-01''\<rparr>)
     = Inr (undated_globals\<lparr>normalized_rows := undated_rows ''2024-01-02''\<rparr>)
   \<and> undated_rows ''2024-01-01'' \<noteq> undated_rows ''2024-01-02''"
  by code_simp

end
